theory Spec2Isabelle
  imports Main
begin

section \<open>Data model of the IPC client (ipc.go)\<close>

text \<open>
  A Go value of type \<open>interface{}\<close> matters to the client only through two questions:
  is it a string (the type assertion \<open>cmd[0].(string)\<close>) and, if so, which one. The
  values of every other dynamic type are kept abstract in the type parameter.
\<close>

datatype 'a iface = Nil | is_Str: Str string | Other 'a

text \<open>
  \<open>Response\<close>: a record received from mpv. \<open>request\<close>: a record sent to mpv; its field
  \<open>Response\<close> is the reply channel \<open>make(chan *Response, 1)\<close>, held here by its address
  in the store of channels.
\<close>

record 'a Response =
  Err :: string
  Data :: "'a iface"
  Event :: string
  RequestID :: int
  Bytes :: string

record 'a request =
  Command :: "'a iface list"
  RequestID :: int
  Response :: nat
  RawString :: string

text \<open>A buffered channel of capacity one: its buffer and whether it was closed.\<close>

record 'a chan =
  buf :: "'a Response list"
  closed :: bool

definition make_chan :: "'a chan" where
  "make_chan = \<lparr>buf = [], closed = False\<rparr>"

text \<open>
  The effects on the shared table and on the connection, in the order the code performs
  them: an insertion into \<open>reqMap\<close>, a deletion from it, a call of \<open>conn.Write\<close> (with
  the id of the request it sends, the bytes, and whether it returned an error), and the
  call of a registered event handler.
\<close>

datatype 'a effect =
    Registered int
  | Removed int
  | ConnWrite int string bool
  | Invoked nat "'a Response"

text \<open>
  The client: the two tables guarded by \<open>mu\<close>, the store of the reply channels of its
  requests, and the effects performed so far. A handler (\<open>handleEvent\<close>) is an opaque
  callback, named by a number; its call is recorded, and it is taken to return without
  touching the client. Each critical section of \<open>mu\<close> is one function below.
\<close>

record 'a IPCClient =
  reqMap :: "int \<rightharpoonup> 'a request"
  event :: "string \<rightharpoonup> nat"
  chans :: "nat \<Rightarrow> 'a chan"
  trace :: "'a effect list"

datatype panic = InterfaceConversion | PanicMsg string

text \<open>
  How a call ends: it returns, it is still inside its endless loop after the iterations
  counted, it blocks on a channel, or it panics.
\<close>

datatype 'a outcome = Returned 'a | Running 'a | Blocked 'a | Panicked panic

datatype error = ErrTimeoutSend | ErrTimeoutRecv

definition NewIPCClient :: "'a IPCClient" where
  "NewIPCClient = \<lparr>reqMap = Map.empty, event = Map.empty, chans = (\<lambda>_. make_chan), trace = []\<rparr>"

section \<open>Requests\<close>

text \<open>
  \<open>newRequest\<close>: \<open>rnd\<close> is the value \<open>rand.Intn(10000)\<close> returned and \<open>ch\<close> the
  address of the channel \<open>make\<close> allocated. Both type assertions panic on a value that is
  not a string.
\<close>

definition newRequest :: "int \<Rightarrow> nat \<Rightarrow> 'a iface list \<Rightarrow> panic + 'a request" where
  "newRequest rnd ch cmd =
     (let req = \<lparr>Command = cmd, RequestID = rnd, Response = ch, RawString = ''''\<rparr> in
      if length cmd < 2 then Inr req
      else (case cmd ! 0 of
              Str s \<Rightarrow>
                if s = ''raw'' then
                  (case cmd ! 1 of
                     Str f \<Rightarrow> Inr (req\<lparr>RawString := f\<rparr>)
                   | _ \<Rightarrow> Inl InterfaceConversion)
                else Inr req
            | _ \<Rightarrow> Inl InterfaceConversion))"

definition registerEvent :: "string \<Rightarrow> nat \<Rightarrow> 'a IPCClient \<Rightarrow> 'a IPCClient" where
  "registerEvent name fn c = c\<lparr>event := (event c)(name \<mapsto> fn)\<rparr>"

section \<open>Channels\<close>

datatype 'a sent = Sent "'a chan" | SendBlocks | SendOnClosed

definition chan_send :: "'a chan \<Rightarrow> 'a Response \<Rightarrow> 'a sent" where
  "chan_send ch v =
     (if closed ch then SendOnClosed
      else if length (buf ch) < 1 then Sent (ch\<lparr>buf := buf ch @ [v]\<rparr>)
      else SendBlocks)"

datatype 'a received = Received "'a Response" "'a chan" | RecvClosed | NotReady

definition chan_recv :: "'a chan \<Rightarrow> 'a received" where
  "chan_recv ch =
     (case buf ch of
        v # vs \<Rightarrow> Received v (ch\<lparr>buf := vs\<rparr>)
      | [] \<Rightarrow> if closed ch then RecvClosed else NotReady)"

section \<open>Dispatch\<close>

definition dispatch :: "'a Response \<Rightarrow> 'a IPCClient \<Rightarrow> 'a IPCClient outcome" where
  "dispatch resp c =
     (if Event resp = '''' then
        (case reqMap c (Response.RequestID resp) of
           Some req \<Rightarrow>
             (let c1 = c\<lparr>reqMap := (reqMap c)(Response.RequestID resp := None),
                         trace := trace c @ [Removed (Response.RequestID resp)]\<rparr> in
              case chan_send (chans c1 (Response req)) resp of
                Sent ch' \<Rightarrow> Returned (c1\<lparr>chans := (chans c1)(Response req := ch')\<rparr>)
              | SendBlocks \<Rightarrow> Blocked c1
              | SendOnClosed \<Rightarrow> Panicked (PanicMsg ''send on closed channel''))
         | None \<Rightarrow> Returned c)
      else
        (case event c (Event resp) of
           Some handleFunc \<Rightarrow> Returned (c\<lparr>trace := trace c @ [Invoked handleFunc resp]\<rparr>)
         | None \<Rightarrow> Returned c))"

section \<open>The write loop\<close>

text \<open>\<open>%d\<close> of \<open>fmt.Sprintf\<close>: the decimal digits, with a minus sign below zero.\<close>

fun digits :: "nat \<Rightarrow> string" where
  "digits n =
     (if n < 10 then [''0123456789'' ! n]
      else digits (n div 10) @ [''0123456789'' ! (n mod 10)])"

declare digits.simps [simp del]

definition fmt_d :: "int \<Rightarrow> string" where
  "fmt_d i = (if i < 0 then CHR ''-'' # digits (nat (- i)) else digits (nat i))"

text \<open>\<open>fmt.Sprintf("{%s,\"%s\":%d}\n", s, k, d)\<close>\<close>

definition Sprintf_record :: "string \<Rightarrow> string \<Rightarrow> int \<Rightarrow> string" where
  \<open>Sprintf_record s k d = ''{'' @ s @ '',"'' @ k @ ''":'' @ fmt_d d @ ''}'' @ [CHR 0x0A]\<close>

text \<open>
  The bytes handed to \<open>conn.Write\<close>: \<open>b\<close> is what \<open>json.Marshal(req)\<close> returned.
\<close>

definition outbound :: "string \<Rightarrow> 'a request \<Rightarrow> string" where
  "outbound b req =
     (if length (Command req) > 1 \<and> Command req ! 0 = Str ''raw''
      then Sprintf_record (RawString req) ''request_id'' (RequestID req)
      else b @ [CHR 0x0A])"

text \<open>
  One iteration of the write loop on the request received from \<open>c.comm\<close>.
  \<open>Marshal\<close> stands for \<open>json.Marshal\<close> (\<open>None\<close>: it returned an error), and \<open>werr\<close>
  says whether \<open>conn.Write\<close> returned an error.
\<close>

definition writeloop_body ::
  "('a request \<Rightarrow> string option) \<Rightarrow> bool \<Rightarrow> 'a request \<Rightarrow> 'a IPCClient \<Rightarrow> 'a IPCClient" where
  "writeloop_body Marshal werr req c =
     (case Marshal req of
        None \<Rightarrow> c
      | Some b \<Rightarrow>
          (let c1 = c\<lparr>reqMap := (reqMap c)(RequestID req \<mapsto> req),
                      trace := trace c @ [Registered (RequestID req)]\<rparr>;
               c2 = c1\<lparr>trace := trace c1 @ [ConnWrite (RequestID req) (outbound b req) werr]\<rparr>
           in if werr
              then c2\<lparr>reqMap := (reqMap c2)(RequestID req := None),
                      trace := trace c2 @ [Removed (RequestID req)]\<rparr>
              else c2))"

text \<open>
  What the loop receives from \<open>c.comm\<close>: a request (with the outcome of its write), or
  the notice that the channel was closed. When nothing is left to receive, the loop
  blocks on \<open>c.comm\<close>.
\<close>

datatype 'a comm_recv = Req "'a request" bool | CommClosed

fun writeloop ::
  "('a request \<Rightarrow> string option) \<Rightarrow> 'a comm_recv list \<Rightarrow> 'a IPCClient \<Rightarrow> 'a IPCClient outcome" where
  "writeloop Marshal [] c = Blocked c"
| "writeloop Marshal (CommClosed # q) c = Panicked (PanicMsg ''Communication channel closed'')"
| "writeloop Marshal (Req req werr # q) c = writeloop Marshal q (writeloop_body Marshal werr req c)"

section \<open>The read loop\<close>

text \<open>
  What \<open>rd.ReadBytes('\n')\<close> returns: a record, or an error. The reader is the list of
  the results still to come; once it is used up the connection is at its end and every
  further read returns an error.
\<close>

datatype read_result = Record string | ReadErr

fun ReadBytes :: "read_result list \<Rightarrow> read_result \<times> read_result list" where
  "ReadBytes [] = (ReadErr, [])"
| "ReadBytes (r # rd) = (r, rd)"

text \<open>
  \<open>Unmarshal\<close> stands for \<open>json.Unmarshal(data, &resp)\<close>: it is given the record and
  the response to fill, and returns the filled response or \<open>None\<close> for an error. The
  loop has no exit: after \<open>n\<close> iterations it is still running, unless \<open>dispatch\<close>
  blocked or panicked.
\<close>

fun readloop ::
  "(string \<Rightarrow> 'a Response \<Rightarrow> 'a Response option) \<Rightarrow> nat \<Rightarrow> read_result list \<Rightarrow>
     'a IPCClient \<Rightarrow> 'a IPCClient outcome" where
  "readloop Unmarshal 0 rd c = Running c"
| "readloop Unmarshal (Suc n) rd c =
     (case ReadBytes rd of
        (ReadErr, rd') \<Rightarrow> readloop Unmarshal n rd' c
      | (Record data, rd') \<Rightarrow>
          (case Unmarshal data
                  \<lparr>Err = '''', Data = Nil, Event = '''', Response.RequestID = 0, Bytes = data\<rparr> of
             None \<Rightarrow> readloop Unmarshal n rd' c
           | Some resp \<Rightarrow>
               (case dispatch resp c of
                  Returned c' \<Rightarrow> readloop Unmarshal n rd' c'
                | Running c' \<Rightarrow> Running c'
                | Blocked c' \<Rightarrow> Blocked c'
                | Panicked p \<Rightarrow> Panicked p)))"

section \<open>Exec\<close>

text \<open>
  \<open>Exec\<close> on the client as it is when the second \<open>select\<close> is decided. \<open>sent\<close>: the
  first \<open>select\<close> took \<open>c.comm <- req\<close> (otherwise its timer fired first). \<open>timer\<close>: the
  timer of the second \<open>select\<close> has fired and is chosen even if the reply channel is
  ready as well; when the reply channel is not ready, only the timer can be chosen.
\<close>

definition Exec ::
  "int \<Rightarrow> nat \<Rightarrow> bool \<Rightarrow> bool \<Rightarrow> 'a iface list \<Rightarrow> 'a IPCClient \<Rightarrow>
     (('a Response option \<times> error option) \<times> 'a IPCClient) outcome" where
  "Exec rnd ch sent timer command c =
     (case newRequest rnd ch command of
        Inl p \<Rightarrow> Panicked p
      | Inr req \<Rightarrow>
          if \<not> sent then Returned ((None, Some ErrTimeoutSend), c)
          else (case chan_recv (chans c (Response req)) of
                  NotReady \<Rightarrow> Returned ((None, Some ErrTimeoutRecv), c)
                | RecvClosed \<Rightarrow>
                    if timer then Returned ((None, Some ErrTimeoutRecv), c)
                    else Panicked (PanicMsg ''Response channel closed'')
                | Received res ch' \<Rightarrow>
                    if timer then Returned ((None, Some ErrTimeoutRecv), c)
                    else Returned ((Some res, None),
                                   c\<lparr>chans := (chans c)(Response req := ch')\<rparr>)))"

section \<open>The write loop interleaved with the read loop\<close>

text \<open>
  The write loop holds \<open>mu\<close> only around the insertion (lines 143 to 145) and around the
  deletion after a failed write (lines 154 to 156); \<open>conn.Write\<close> (line 150) runs without
  it, so the read loop may dispatch between the insertion and the write. The three
  effects of an iteration, one by one:
\<close>

definition wl_register :: "'a request \<Rightarrow> 'a IPCClient \<Rightarrow> 'a IPCClient" where
  "wl_register req c =
     c\<lparr>reqMap := (reqMap c)(RequestID req \<mapsto> req),
       trace := trace c @ [Registered (RequestID req)]\<rparr>"

definition wl_write :: "string \<Rightarrow> bool \<Rightarrow> 'a request \<Rightarrow> 'a IPCClient \<Rightarrow> 'a IPCClient" where
  "wl_write b werr req c = c\<lparr>trace := trace c @ [ConnWrite (RequestID req) b werr]\<rparr>"

definition wl_cleanup :: "'a request \<Rightarrow> 'a IPCClient \<Rightarrow> 'a IPCClient" where
  "wl_cleanup req c =
     c\<lparr>reqMap := (reqMap c)(RequestID req := None),
       trace := trace c @ [Removed (RequestID req)]\<rparr>"

text \<open>
  Where the write loop stands: waiting on \<open>c.comm\<close>, about to write the bytes of a
  request it has registered, or about to delete a request whose write failed.
\<close>

datatype 'a wl_pc = AtRecv | AtWrite "'a request" string | AtCleanup "'a request"

text \<open>
  The two goroutines on one client. \<open>mu_held\<close>: the read loop is blocked inside
  \<open>dispatch\<close>, on a full reply channel, and holds \<open>mu\<close> for good.
\<close>

record 'a system =
  wl :: "'a wl_pc"
  client :: "'a IPCClient"
  mu_held :: bool

text \<open>
  One atomic step of either goroutine: the write loop receives a request, marshals and
  registers it; it writes; it deletes after a failed write; the read loop dispatches a
  response. \<open>None\<close>: the step cannot be taken, because the goroutine is not at that
  point or waits for \<open>mu\<close>, or because \<open>dispatch\<close> panicked.
\<close>

datatype 'a action = WlRecv "'a request" | WlWrite bool | WlCleanup | RlDispatch "'a Response"

fun step ::
  "('a request \<Rightarrow> string option) \<Rightarrow> 'a action \<Rightarrow> 'a system \<Rightarrow> 'a system option" where
  "step Marshal (WlRecv req) s =
     (case wl s of
        AtRecv \<Rightarrow>
          (case Marshal req of
             None \<Rightarrow> Some s
           | Some b \<Rightarrow>
               if mu_held s then None
               else Some (s\<lparr>wl := AtWrite req (outbound b req),
                            client := wl_register req (client s)\<rparr>))
      | _ \<Rightarrow> None)"
| "step Marshal (WlWrite werr) s =
     (case wl s of
        AtWrite req b \<Rightarrow>
          Some (s\<lparr>wl := (if werr then AtCleanup req else AtRecv),
                  client := wl_write b werr req (client s)\<rparr>)
      | _ \<Rightarrow> None)"
| "step Marshal WlCleanup s =
     (case wl s of
        AtCleanup req \<Rightarrow>
          if mu_held s then None
          else Some (s\<lparr>wl := AtRecv, client := wl_cleanup req (client s)\<rparr>)
      | _ \<Rightarrow> None)"
| "step Marshal (RlDispatch resp) s =
     (if mu_held s then None
      else (case dispatch resp (client s) of
              Returned c' \<Rightarrow> Some (s\<lparr>client := c'\<rparr>)
            | Blocked c' \<Rightarrow> Some (s\<lparr>client := c', mu_held := True\<rparr>)
            | Running c' \<Rightarrow> None
            | Panicked p \<Rightarrow> None))"

text \<open>A schedule: the steps of the two goroutines in the order they happen.\<close>

fun run ::
  "('a request \<Rightarrow> string option) \<Rightarrow> 'a action list \<Rightarrow> 'a system \<Rightarrow> 'a system option" where
  "run Marshal [] s = Some s"
| "run Marshal (a # as) s =
     (case step Marshal a s of None \<Rightarrow> None | Some s' \<Rightarrow> run Marshal as s')"

section \<open>Reading the trace\<close>

text \<open>The byte strings handed to \<open>conn.Write\<close>, in order.\<close>

fun writes :: "'a effect list \<Rightarrow> string list" where
  "writes [] = []"
| "writes (ConnWrite i b e # t) = b # writes t"
| "writes (Registered i # t) = writes t"
| "writes (Removed i # t) = writes t"
| "writes (Invoked h r # t) = writes t"

section \<open>Example inputs\<close>

text \<open>
  A request for the volume with id 42 and reply channel 0, the bytes \<open>json.Marshal\<close>
  gives for it, the client in which it is pending, and mpv's reply to it.
\<close>

definition cmd_volume :: "unit iface list" where
  "cmd_volume = [Str ''get_property'', Str ''volume'']"

definition req_volume :: "unit request" where
  "req_volume = \<lparr>Command = cmd_volume, RequestID = 42, Response = 0, RawString = ''''\<rparr>"

definition Marshal_volume :: "unit request \<Rightarrow> string option" where
  \<open>Marshal_volume r =
     Some ''{"command":["get_property","volume"],"request_id":42,"RawString":""}''\<close>

definition pending_volume :: "unit IPCClient" where
  "pending_volume = writeloop_body Marshal_volume False req_volume NewIPCClient"

definition line_volume :: string where
  \<open>line_volume = ''{"data":50.000000,"request_id":42,"error":"success"}'' @ [CHR 0x0A]\<close>

definition reply_volume :: "unit Response" where
  "reply_volume =
     \<lparr>Err = ''success'', Data = Other (), Event = '''', Response.RequestID = 42,
      Bytes = line_volume\<rparr>"

text \<open>A decoder that knows this one reply and rejects every other record.\<close>

definition Unmarshal_volume :: "string \<Rightarrow> unit Response \<Rightarrow> unit Response option" where
  "Unmarshal_volume data resp =
     (if data = line_volume
      then Some (resp\<lparr>Err := ''success'', Data := Other (), Response.RequestID := 42\<rparr>)
      else None)"

text \<open>
  The raw command of the playlist example. On the raw path the bytes of
  \<open>json.Marshal\<close> are replaced, so the example fixes only that it returned no error.
\<close>

definition cmd_raw :: "unit iface list" where
  \<open>cmd_raw = [Str ''raw'', Str ''"command":["playlist-remove"],"index":5'']\<close>

definition Marshal_ok :: "unit request \<Rightarrow> string option" where
  "Marshal_ok r = Some ''{}''"

definition req_raw :: "unit request" where
  \<open>req_raw = \<lparr>Command = cmd_raw, RequestID = 42, Response = 0,
               RawString = ''"command":["playlist-remove"],"index":5''\<rparr>\<close>

text \<open>
  The two goroutines at the start, and with the request for the volume written and
  pending.
\<close>

definition sys_start :: "unit system" where
  "sys_start = \<lparr>wl = AtRecv, client = NewIPCClient, mu_held = False\<rparr>"

definition sys_pending :: "unit system" where
  "sys_pending = \<lparr>wl = AtRecv, client = pending_volume, mu_held = False\<rparr>"

section \<open>Basic facts\<close>

lemma newRequest_fields:
  "newRequest rnd ch cmd = Inr req \<Longrightarrow>
     RequestID req = rnd \<and> Response req = ch \<and> Command req = cmd"
  by (auto simp: newRequest_def Let_def split: if_splits iface.splits)

lemma newRequest_raw:
  "newRequest rnd ch cmd = Inr req \<Longrightarrow> 1 < length cmd \<Longrightarrow> cmd ! 0 = Str ''raw'' \<Longrightarrow>
     cmd ! 1 = Str (RawString req)"
  by (auto simp: newRequest_def Let_def split: if_splits iface.splits)

lemma writes_append: "writes (t @ u) = writes t @ writes u"
  by (induction t rule: writes.induct) auto

lemma writeloop_body_trace:
  "Marshal req = Some b \<Longrightarrow>
   trace (writeloop_body Marshal werr req c) =
     trace c @ Registered (RequestID req) # ConnWrite (RequestID req) (outbound b req) werr #
       (if werr then [Removed (RequestID req)] else [])"
  by (simp add: writeloop_body_def Let_def)

lemma fmt_d_42: "fmt_d 42 = ''42''"
  by (simp add: fmt_d_def digits.simps)

section \<open>The raw escape\<close>

text \<open>
  Claim C5. A request built from a command whose first element is the string \<open>raw\<close>
  and whose second element is the caller's fragment is put on the connection as the
  bytes \<open>{\<close>, the fragment, \<open>,"request_id":\<close>, the id in decimal, \<open>}\<close> and one newline:
  this is what the write loop hands to \<open>conn.Write\<close> for it, after whatever it wrote
  before. The example of the specification is the witness below.
\<close>

theorem raw_escape_record:
  assumes "newRequest rid ch cmd = Inr req" and "1 < length cmd" and "cmd ! 0 = Str ''raw''"
    and "Marshal req = Some b"
  shows \<open>\<exists>frag. cmd ! 1 = Str frag \<and>
           writes (trace (writeloop_body Marshal werr req c)) =
             writes (trace c) @
               [''{'' @ frag @ '',"request_id":'' @ fmt_d rid @ ''}'' @ [CHR 0x0A]]\<close>
proof -
  from assms(1) have f: "RequestID req = rid" "Command req = cmd"
    using newRequest_fields by blast+
  from assms(1-3) have r: "cmd ! 1 = Str (RawString req)"
    by (rule newRequest_raw)
  have \<open>outbound b req =
          ''{'' @ RawString req @ '',"request_id":'' @ fmt_d rid @ ''}'' @ [CHR 0x0A]\<close>
    using assms(2,3) f by (simp add: outbound_def Sprintf_record_def)
  then show ?thesis
    using r assms(4) by (simp add: writeloop_body_trace writes_append f)
qed

theorem raw_escape_record_witness:
  \<open>newRequest 42 0 cmd_raw = Inr req_raw \<and> 1 < length cmd_raw \<and> cmd_raw ! 0 = Str ''raw'' \<and>
    Marshal_ok req_raw = Some ''{}'' \<and>
    writes (trace (writeloop_body Marshal_ok False req_raw NewIPCClient)) =
      [''{"command":["playlist-remove"],"index":5,"request_id":42}'' @ [CHR 0x0A]]\<close>
proof -
  have n: "newRequest 42 0 cmd_raw = Inr req_raw"
    by (simp add: newRequest_def cmd_raw_def req_raw_def Let_def)
  have l: "1 < length cmd_raw" and h: "cmd_raw ! 0 = Str ''raw''"
    by (simp_all add: cmd_raw_def)
  have m: "Marshal_ok req_raw = Some ''{}''"
    by (simp add: Marshal_ok_def)
  show ?thesis
    using n l h m
      raw_escape_record [where Marshal = Marshal_ok and werr = False and c = NewIPCClient,
        OF n l h m]
    by (simp add: cmd_raw_def NewIPCClient_def fmt_d_42)
qed

section \<open>Dispatching replies\<close>

lemma pending_volume_eq:
  \<open>pending_volume =
     \<lparr>reqMap = [42 \<mapsto> req_volume], event = Map.empty, chans = (\<lambda>_. make_chan),
      trace = [Registered 42,
               ConnWrite 42
                 (''{"command":["get_property","volume"],"request_id":42,"RawString":""}''
                    @ [CHR 0x0A]) False]\<rparr>\<close>
  by (simp add: pending_volume_def writeloop_body_def Marshal_volume_def req_volume_def
        NewIPCClient_def outbound_def cmd_volume_def Let_def)

lemma newRequest_volume: "newRequest 42 ch cmd_volume = Inr (req_volume\<lparr>Response := ch\<rparr>)"
  by (simp add: newRequest_def cmd_volume_def req_volume_def Let_def)

text \<open>
  Claim C8. A reply (a response with an empty event name) whose id is not in the table
  of pending requests changes nothing: \<open>dispatch\<close> returns, it neither blocks nor
  panics, and the client it leaves is the client it found, with the same pending
  requests, the same handlers, the same contents of every reply channel and no new
  effect.
\<close>

theorem dispatch_unknown_reply:
  assumes "Event resp = ''''" and "reqMap c (Response.RequestID resp) = None"
  shows "dispatch resp c = Returned c"
  using assms by (simp add: dispatch_def)

theorem dispatch_unknown_reply_witness:
  "Event (reply_volume\<lparr>Response.RequestID := 7\<rparr>) = '''' \<and>
   reqMap pending_volume (Response.RequestID (reply_volume\<lparr>Response.RequestID := 7\<rparr>)) = None \<and>
   dispatch (reply_volume\<lparr>Response.RequestID := 7\<rparr>) pending_volume = Returned pending_volume"
proof -
  have e: "Event (reply_volume\<lparr>Response.RequestID := 7\<rparr>) = ''''"
    by (simp add: reply_volume_def)
  have u: "reqMap pending_volume
             (Response.RequestID (reply_volume\<lparr>Response.RequestID := 7\<rparr>)) = None"
    by (simp add: pending_volume_eq)
  show ?thesis
    using e u dispatch_unknown_reply [OF e u] by simp
qed

text \<open>
  Claim C7. A reply for a pending id, whose request waits on its empty reply channel, is
  resolved once: \<open>dispatch\<close> returns, the id is gone from the table, and the channel of
  the request holds exactly this reply. A second reply with the same id then finds no
  entry: \<open>dispatch\<close> returns again and leaves the client as it was, so nothing more is
  put into the channel and the table stays as the first dispatch left it.
\<close>

theorem dispatch_at_most_once:
  assumes "Event r1 = ''''" and "Event r2 = ''''"
    and "Response.RequestID r1 = i" and "Response.RequestID r2 = i"
    and "reqMap c i = Some req" and "chans c (Response req) = make_chan"
  shows "\<exists>c1. dispatch r1 c = Returned c1 \<and> reqMap c1 = (reqMap c)(i := None)
           \<and> chans c1 = (chans c)(Response req := \<lparr>buf = [r1], closed = False\<rparr>)
           \<and> dispatch r2 c1 = Returned c1"
  using assms by (simp add: dispatch_def chan_send_def make_chan_def Let_def)

theorem dispatch_at_most_once_witness:
  "Event reply_volume = '''' \<and> Response.RequestID reply_volume = 42 \<and>
   reqMap pending_volume 42 = Some req_volume \<and>
   chans pending_volume (Response req_volume) = make_chan \<and>
   (\<exists>c1. dispatch reply_volume pending_volume = Returned c1 \<and>
      reqMap c1 = (reqMap pending_volume)(42 := None) \<and>
      chans c1 = (chans pending_volume)
                   (Response req_volume := \<lparr>buf = [reply_volume], closed = False\<rparr>) \<and>
      dispatch reply_volume c1 = Returned c1)"
proof -
  have e: "Event reply_volume = ''''" and i: "Response.RequestID reply_volume = 42"
    by (simp_all add: reply_volume_def)
  have p: "reqMap pending_volume 42 = Some req_volume"
    and s: "chans pending_volume (Response req_volume) = make_chan"
    by (simp_all add: pending_volume_eq)
  show ?thesis
    using e i p s dispatch_at_most_once [OF e e i i p s] by simp
qed

section \<open>The request constructor and Exec\<close>

text \<open>
  Claim C10. \<open>Exec\<close> with two or more arguments of which the first is not a string
  panics in the type assertion of \<open>newRequest\<close>, before it touches the queue: whatever
  the random id, the channel, the scheduling and the client are. So \<open>Exec\<close> with two or
  more arguments can only return when the first one is a string.
\<close>

theorem Exec_panics_on_non_string:
  assumes "2 \<le> length command" and "\<not> is_Str (command ! 0)"
  shows "Exec rnd ch sent timer command c = Panicked InterfaceConversion"
  using assms by (cases "command ! 0") (auto simp: Exec_def newRequest_def Let_def)

theorem Exec_panics_on_non_string_witness:
  "2 \<le> length [Other (), Str ''volume''] \<and> \<not> is_Str ([Other (), Str ''volume''] ! 0) \<and>
   Exec 42 0 True False [Other (), Str ''volume''] pending_volume = Panicked InterfaceConversion"
proof -
  have l: "2 \<le> length [Other (), Str ''volume'']"
    by simp
  have n: "\<not> is_Str ([Other (), Str ''volume''] ! 0)"
    by simp
  show ?thesis
    using l n Exec_panics_on_non_string [OF l n, of 42 0 True False pending_volume] by simp
qed

text \<open>
  Against claim C1 as stated: the request with id 42 was handed to the write loop, which
  registered and wrote it; no reply came. \<open>Exec\<close> returns \<open>ErrTimeoutRecv\<close>, and the
  table still holds id 42 with that request.
\<close>

theorem Exec_timeout_keeps_id:
  "newRequest 42 0 cmd_volume = Inr req_volume \<and>
   chan_recv (chans pending_volume 0) = NotReady \<and>
   Exec 42 0 True True cmd_volume pending_volume =
     Returned ((None, Some ErrTimeoutRecv), pending_volume) \<and>
   reqMap pending_volume 42 = Some req_volume"
  by (simp add: Exec_def newRequest_def cmd_volume_def req_volume_def Let_def
        pending_volume_eq chan_recv_def make_chan_def)

text \<open>
  Claim C1, amended. When the request was handed to the queue and its reply channel
  holds no reply when the receive timer fires, \<open>Exec\<close> returns \<open>ErrTimeoutRecv\<close> and
  leaves the client as it is: \<open>Exec\<close> does not touch the table of pending requests, so
  an id the write loop registered is still in it.
\<close>

theorem Exec_receive_timeout:
  assumes "newRequest rnd ch command = Inr req" and "chan_recv (chans c ch) = NotReady"
  shows "Exec rnd ch True timer command c = Returned ((None, Some ErrTimeoutRecv), c)"
proof -
  from assms(1) have "Response req = ch"
    using newRequest_fields by blast
  then show ?thesis
    using assms by (simp add: Exec_def)
qed

theorem Exec_receive_timeout_witness:
  "newRequest 42 0 cmd_volume = Inr req_volume \<and>
   chan_recv (chans pending_volume 0) = NotReady \<and>
   Exec 42 0 True False cmd_volume pending_volume =
     Returned ((None, Some ErrTimeoutRecv), pending_volume)"
proof -
  have n: "newRequest 42 0 cmd_volume = Inr req_volume"
    by (simp add: newRequest_def cmd_volume_def req_volume_def Let_def)
  have r: "chan_recv (chans pending_volume 0) = NotReady"
    by (simp add: pending_volume_eq chan_recv_def make_chan_def)
  show ?thesis
    using n r Exec_receive_timeout [OF n r, of False] by simp
qed

text \<open>
  Against claim C4 as stated: id 42 is pending, and \<open>newRequest\<close> gives id 42 to a new
  request (\<open>rand.Intn(10000)\<close> may return 42 again; nothing looks at the table). Once the
  write loop has registered the new request, the one reply with id 42 goes to the
  channel of the new request, and the channel of the first one stays empty.
\<close>

theorem id_reused_while_pending:
  "reqMap pending_volume 42 = Some req_volume \<and>
   newRequest 42 1 cmd_volume = Inr (req_volume\<lparr>Response := 1\<rparr>) \<and>
   RequestID (req_volume\<lparr>Response := 1\<rparr>) = 42 \<and>
   (case dispatch reply_volume
           (writeloop_body Marshal_volume False (req_volume\<lparr>Response := 1\<rparr>) pending_volume) of
      Returned c \<Rightarrow> buf (chans c 0) = [] \<and> buf (chans c 1) = [reply_volume]
    | _ \<Rightarrow> False)"
  by (simp add: newRequest_volume pending_volume_eq writeloop_body_def Marshal_volume_def
        Let_def dispatch_def reply_volume_def chan_send_def make_chan_def req_volume_def)

text \<open>
  Claim C4, amended. The id of a new request is the number \<open>rand.Intn(10000)\<close>
  returned, whatever the table of pending requests holds; and when the write loop
  registers the request, the table maps that id to the new request, replacing a request
  that was pending under the same id.
\<close>

theorem newRequest_id_is_random:
  assumes "newRequest rnd ch cmd = Inr req" and "Marshal req = Some b"
  shows "RequestID req = rnd \<and> reqMap (writeloop_body Marshal False req c) rnd = Some req"
proof -
  from assms(1) have "RequestID req = rnd"
    using newRequest_fields by blast
  then show ?thesis
    using assms(2) by (simp add: writeloop_body_def Let_def)
qed

theorem newRequest_id_is_random_witness:
  \<open>newRequest 42 1 cmd_volume = Inr (req_volume\<lparr>Response := 1\<rparr>) \<and>
   Marshal_volume (req_volume\<lparr>Response := 1\<rparr>) =
     Some ''{"command":["get_property","volume"],"request_id":42,"RawString":""}'' \<and>
   reqMap pending_volume 42 = Some req_volume \<and>
   RequestID (req_volume\<lparr>Response := 1\<rparr>) = 42 \<and>
   reqMap (writeloop_body Marshal_volume False (req_volume\<lparr>Response := 1\<rparr>) pending_volume) 42 =
     Some (req_volume\<lparr>Response := 1\<rparr>)\<close>
proof -
  have n: "newRequest 42 1 cmd_volume = Inr (req_volume\<lparr>Response := 1\<rparr>)"
    by (rule newRequest_volume)
  have m: \<open>Marshal_volume (req_volume\<lparr>Response := 1\<rparr>) =
     Some ''{"command":["get_property","volume"],"request_id":42,"RawString":""}''\<close>
    by (simp add: Marshal_volume_def)
  have p: "reqMap pending_volume 42 = Some req_volume"
    by (simp add: pending_volume_eq)
  show ?thesis
    using n m p
      newRequest_id_is_random [where Marshal = Marshal_volume and c = pending_volume, OF n m]
    by simp
qed

section \<open>The write loop: registration, write, failure\<close>

lemma run_append:
  "run M (as @ bs) s = (case run M as s of None \<Rightarrow> None | Some s' \<Rightarrow> run M bs s')"
  by (induction as arbitrary: s) (auto split: option.splits)

lemma run_snoc:
  "run M (as @ [a]) s = Some s' \<longleftrightarrow> (\<exists>t. run M as s = Some t \<and> step M a t = Some s')"
  by (auto simp: run_append split: option.splits)

text \<open>
  Run without the read loop in between, the steps of one iteration are
  \<open>writeloop_body\<close>.
\<close>

lemma run_writeloop_body:
  assumes "Marshal req = Some b"
  shows "run Marshal ([WlRecv req, WlWrite werr] @ (if werr then [WlCleanup] else []))
           \<lparr>wl = AtRecv, client = c, mu_held = False\<rparr> =
         Some \<lparr>wl = AtRecv, client = writeloop_body Marshal werr req c, mu_held = False\<rparr>"
  using assms
  by (simp add: writeloop_body_def wl_register_def wl_write_def wl_cleanup_def Let_def)

lemma dispatch_reqMap:
  "dispatch resp c = Returned c' \<or> dispatch resp c = Blocked c' \<Longrightarrow>
     reqMap c' k = reqMap c k \<or> (Event resp = '''' \<and> Response.RequestID resp = k)"
  by (auto simp: dispatch_def Let_def split: if_splits option.splits sent.splits)

lemma dispatch_writes:
  "dispatch resp c = Returned c' \<or> dispatch resp c = Blocked c' \<Longrightarrow>
     writes (trace c') = writes (trace c)"
  by (auto simp: dispatch_def Let_def writes_append split: if_splits option.splits sent.splits)

lemma step_dispatch:
  assumes "step M (RlDispatch resp) t = Some s"
  shows "wl s = wl t \<and> writes (trace (client s)) = writes (trace (client t)) \<and>
         (reqMap (client s) k = reqMap (client t) k \<or>
          (Event resp = '''' \<and> Response.RequestID resp = k))"
proof -
  from assms obtain c' where
    d: "dispatch resp (client t) = Returned c' \<or> dispatch resp (client t) = Blocked c'"
    and s: "client s = c'" "wl s = wl t"
    by (auto split: if_splits outcome.splits)
  show ?thesis
    using dispatch_reqMap [OF d] dispatch_writes [OF d] s by simp
qed

text \<open>
  Whenever the write loop stands before the write of a request, the schedule so far ends
  with the step that registered this request, followed by dispatches of the read loop
  only.
\<close>

lemma at_write:
  assumes "run M as s0 = Some s" and "wl s0 = AtRecv" and "wl s = AtWrite req b"
  shows "\<exists>as1 rs b0 s1. as = as1 @ WlRecv req # map RlDispatch rs \<and> M req = Some b0 \<and>
           b = outbound b0 req \<and>
           run M (as1 @ [WlRecv req]) s0 = Some s1 \<and>
           reqMap (client s1) (RequestID req) = Some req \<and>
           writes (trace (client s)) = writes (trace (client s1)) \<and>
           (reqMap (client s) (RequestID req) = Some req \<or>
            (\<exists>r\<in>set rs. Event r = '''' \<and> Response.RequestID r = RequestID req))"
  using assms
proof (induction as arbitrary: s rule: rev_induct)
  case Nil
  then show ?case by simp
next
  case (snoc a as)
  from snoc.prems(1) obtain t where t: "run M as s0 = Some t" "step M a t = Some s"
    by (auto simp: run_snoc)
  show ?case
  proof (cases a)
    case (WlRecv r)
    with t(2) snoc.prems(3) obtain b0 where
      r: "r = req" "M req = Some b0" "b = outbound b0 req"
        "s = t\<lparr>wl := AtWrite req (outbound b0 req), client := wl_register req (client t)\<rparr>"
      by (auto split: wl_pc.splits option.splits if_splits)
    have 1: "run M (as @ [WlRecv req]) s0 = Some s"
      using t WlRecv r(1) by (simp add: run_snoc)
    have 2: "reqMap (client s) (RequestID req) = Some req"
      using r(4) by (simp add: wl_register_def)
    show ?thesis
      using WlRecv r(1,2,3) 1 2
      by (intro exI [of _ as] exI [of _ "[]"] exI [of _ b0] exI [of _ s]) simp
  next
    case (WlWrite werr)
    with t(2) snoc.prems(3) show ?thesis
      by (auto split: wl_pc.splits if_splits)
  next
    case WlCleanup
    with t(2) snoc.prems(3) show ?thesis
      by (auto split: wl_pc.splits if_splits)
  next
    case (RlDispatch resp)
    with t(2) have st: "step M (RlDispatch resp) t = Some s"
      by simp
    note d = step_dispatch [OF st, of "RequestID req"]
    from d snoc.prems(3) have wt: "wl t = AtWrite req b"
      by simp
    from snoc.IH [OF t(1) snoc.prems(2) wt]
    obtain as1 rs b0 s1 where
      ih: "as = as1 @ WlRecv req # map RlDispatch rs" "M req = Some b0"
        "b = outbound b0 req" "run M (as1 @ [WlRecv req]) s0 = Some s1"
        "reqMap (client s1) (RequestID req) = Some req"
        "writes (trace (client t)) = writes (trace (client s1))"
        "reqMap (client t) (RequestID req) = Some req \<or>
            (\<exists>r\<in>set rs. Event r = '''' \<and> Response.RequestID r = RequestID req)"
      by blast
    have "reqMap (client s) (RequestID req) = Some req \<or>
            (\<exists>r\<in>set (rs @ [resp]). Event r = '''' \<and> Response.RequestID r = RequestID req)"
      using ih(7) d by auto
    then show ?thesis
      using ih(1-6) d RlDispatch
      by (intro exI [of _ as1] exI [of _ "rs @ [resp]"] exI [of _ b0] exI [of _ s1]) simp
  qed
qed

text \<open>
  Against claim C6 as stated: id 42 is pending for a first request, written earlier. The
  write loop receives a second request with id 42 and registers it; before it writes,
  the read loop dispatches the reply with id 42, which goes to the channel of the second
  request and deletes the id; then the bytes of the second request are written. At that
  point, where its own reply can arrive, id 42 is not in the table, and the reply, once
  dispatched, changes nothing.
\<close>

theorem reply_finds_id_missing:
  \<open>(case run Marshal_volume
           [WlRecv (req_volume\<lparr>Response := 1\<rparr>), RlDispatch reply_volume, WlWrite False]
           sys_pending of
      Some s \<Rightarrow>
        writes (trace (client s)) =
          [''{"command":["get_property","volume"],"request_id":42,"RawString":""}'' @ [CHR 0x0A],
           ''{"command":["get_property","volume"],"request_id":42,"RawString":""}'' @ [CHR 0x0A]] \<and>
        reqMap (client s) 42 = None \<and>
        buf (chans (client s) 1) = [reply_volume] \<and>
        dispatch reply_volume (client s) = Returned (client s)
    | None \<Rightarrow> False)\<close>
  by (simp add: sys_pending_def pending_volume_eq Marshal_volume_def wl_register_def wl_write_def
        outbound_def req_volume_def cmd_volume_def dispatch_def reply_volume_def chan_send_def
        make_chan_def Let_def)

text \<open>
  Claim C6, amended. In every schedule of the write loop and the read loop, a write of
  the write loop is the write of a request that an earlier step of the write loop
  inserted into the table of pending requests: right after that step the table maps the
  id of the request to it, the bytes are not yet written, and between that step and the
  write only the read loop dispatched. When the bytes are written, the table still maps
  the id to the request, unless one of these dispatches was of a reply with the same id.
\<close>

theorem insert_before_write:
  assumes "run Marshal (as @ [WlWrite werr]) s0 = Some s'" and "wl s0 = AtRecv"
  shows "\<exists>as1 req rs b0 s1.
           as = as1 @ WlRecv req # map RlDispatch rs \<and> Marshal req = Some b0 \<and>
           run Marshal (as1 @ [WlRecv req]) s0 = Some s1 \<and>
           reqMap (client s1) (RequestID req) = Some req \<and>
           writes (trace (client s')) = writes (trace (client s1)) @ [outbound b0 req] \<and>
           (reqMap (client s') (RequestID req) = Some req \<or>
            (\<exists>r\<in>set rs. Event r = '''' \<and> Response.RequestID r = RequestID req))"
proof -
  from assms(1) obtain s where
    s: "run Marshal as s0 = Some s" "step Marshal (WlWrite werr) s = Some s'"
    by (auto simp: run_snoc)
  from s(2) obtain req b where
    w: "wl s = AtWrite req b" "client s' = wl_write b werr req (client s)"
    by (auto split: wl_pc.splits)
  from at_write [OF s(1) assms(2) w(1)]
  obtain as1 rs b0 s1 where
    ih: "as = as1 @ WlRecv req # map RlDispatch rs" "Marshal req = Some b0"
      "b = outbound b0 req" "run Marshal (as1 @ [WlRecv req]) s0 = Some s1"
      "reqMap (client s1) (RequestID req) = Some req"
      "writes (trace (client s)) = writes (trace (client s1))"
      "reqMap (client s) (RequestID req) = Some req \<or>
          (\<exists>r\<in>set rs. Event r = '''' \<and> Response.RequestID r = RequestID req)"
    by blast
  have "writes (trace (client s')) = writes (trace (client s1)) @ [outbound b0 req]"
    using w(2) ih(3,6) by (simp add: wl_write_def writes_append)
  moreover have "reqMap (client s') = reqMap (client s)"
    using w(2) by (simp add: wl_write_def)
  ultimately show ?thesis
    using ih(1,2,4,5,7)
    by (intro exI [of _ as1] exI [of _ req] exI [of _ rs] exI [of _ b0] exI [of _ s1]) simp
qed

theorem insert_before_write_witness:
  "run Marshal_volume
     ([WlRecv req_volume, RlDispatch (reply_volume\<lparr>Response.RequestID := 7\<rparr>)] @ [WlWrite False])
     sys_start = Some sys_pending \<and>
   wl sys_start = AtRecv \<and>
   (\<exists>as1 req rs b0 s1.
      [WlRecv req_volume, RlDispatch (reply_volume\<lparr>Response.RequestID := 7\<rparr>)] =
        as1 @ WlRecv req # map RlDispatch rs \<and>
      Marshal_volume req = Some b0 \<and>
      run Marshal_volume (as1 @ [WlRecv req]) sys_start = Some s1 \<and>
      reqMap (client s1) (RequestID req) = Some req \<and>
      writes (trace (client sys_pending)) = writes (trace (client s1)) @ [outbound b0 req] \<and>
      (reqMap (client sys_pending) (RequestID req) = Some req \<or>
       (\<exists>r\<in>set rs. Event r = '''' \<and> Response.RequestID r = RequestID req)))"
proof -
  have r: "run Marshal_volume
     ([WlRecv req_volume, RlDispatch (reply_volume\<lparr>Response.RequestID := 7\<rparr>)] @ [WlWrite False])
     sys_start = Some sys_pending"
    by (simp add: sys_start_def sys_pending_def pending_volume_eq Marshal_volume_def
          wl_register_def wl_write_def outbound_def req_volume_def cmd_volume_def dispatch_def
          reply_volume_def NewIPCClient_def)
  have w: "wl sys_start = AtRecv"
    by (simp add: sys_start_def)
  show ?thesis
    using r w insert_before_write [where Marshal = Marshal_volume, OF r w] by simp
qed




section \<open>The read loop\<close>

text \<open>
  Claim C9. A record that \<open>json.Unmarshal\<close> rejects costs the read loop one iteration and
  nothing else: wherever the record stands in the input, the loop goes on exactly as it
  does on the input without it, from the same client. No reply is dispatched for it, no
  caller hears of it, and the records after it are read as before.
\<close>

theorem readloop_drops_malformed:
  assumes "Unmarshal data
             \<lparr>Err = '''', Data = Nil, Event = '''', Response.RequestID = 0, Bytes = data\<rparr> = None"
  shows "readloop Unmarshal (length pre + Suc n) (pre @ Record data # post) c =
           readloop Unmarshal (length pre + n) (pre @ post) c"
proof (induction pre arbitrary: c)
  case Nil
  show ?case
    using assms by simp
next
  case (Cons r pre)
  show ?case
    using Cons.IH by (simp split: read_result.splits option.splits outcome.splits)
qed

theorem readloop_drops_malformed_witness:
  "Unmarshal_volume ''volume?''
     \<lparr>Err = '''', Data = Nil, Event = '''', Response.RequestID = 0, Bytes = ''volume?''\<rparr> = None \<and>
   readloop Unmarshal_volume (length [ReadErr] + Suc 1)
     ([ReadErr] @ Record ''volume?'' # [Record line_volume]) pending_volume =
   readloop Unmarshal_volume (length [ReadErr] + 1)
     ([ReadErr] @ [Record line_volume]) pending_volume"
proof -
  have m: "Unmarshal_volume ''volume?''
     \<lparr>Err = '''', Data = Nil, Event = '''', Response.RequestID = 0, Bytes = ''volume?''\<rparr> = None"
    by (simp add: Unmarshal_volume_def line_volume_def)
  show ?thesis
    using m readloop_drops_malformed [where Unmarshal = Unmarshal_volume, OF m,
        of "[ReadErr]" 1 "[Record line_volume]" pending_volume]
    by simp
qed

text \<open>
  Against claim C3 as stated: the connection is at its end, so every read returns an
  error, while id 42 is pending. After five iterations the read loop is still running,
  the client is as it was: id 42 is still pending and the reply channel of its request
  is empty.
\<close>

theorem read_error_resolves_nothing:
  "readloop Unmarshal_volume 5 [] pending_volume = Running pending_volume \<and>
   reqMap pending_volume 42 = Some req_volume \<and> chans pending_volume 0 = make_chan"
  by (simp add: pending_volume_eq eval_nat_numeral)

text \<open>
  Claim C3, amended. A read error costs the read loop one iteration and changes nothing
  in the client; the loop reads again. Once the connection is at its end the loop keeps
  running, however many iterations it makes, with the client unchanged: no pending
  request is resolved. The read loop never returns.
\<close>

theorem readloop_read_error:
  "readloop Unmarshal (Suc n) (ReadErr # rd) c = readloop Unmarshal n rd c \<and>
   readloop Unmarshal n [] c = Running c \<and>
   readloop Unmarshal n rd c \<noteq> Returned c'"
proof -
  have a: "readloop Unmarshal n [] c = Running c"
    by (induction n) auto
  have b: "readloop Unmarshal n rd c \<noteq> Returned c'"
    by (induction Unmarshal n rd c rule: readloop.induct)
       (auto split: prod.splits read_result.splits option.splits outcome.splits)
  show ?thesis
    using a b by simp
qed

end
